theory Spec2Isabelle
  imports Main
begin

section \<open>FocusManager: the data model\<close>

text \<open>
  The class \<^verbatim>\<open>FocusManager\<close> of the \<^verbatim>\<open>utils\<close> package keeps four fields of its own:
  \<^verbatim>\<open>isFocused\<close>, \<^verbatim>\<open>_elements\<close>, \<^verbatim>\<open>_nextEventLoopTimeout\<close> and \<^verbatim>\<open>_focusedElement\<close>.
  A leading underscore is not a legal start of an Isabelle name, so the private fields
  and methods drop it or carry the prefix \<open>priv_\<close>.

  Elements are opaque handles of a type \<open>'e\<close>, compared by identity (\<^verbatim>\<open>===\<close>, \<^verbatim>\<open>indexOf\<close>);
  \<^verbatim>\<open>null\<close> is \<open>None\<close> of an option type and is not an element.

  Two things outside the class are part of the state, because the methods act on them:
  the subscriptions that \<^verbatim>\<open>listenTo\<close> stores and \<^verbatim>\<open>stopListening\<close> drops, and the
  host's queue of timers started by \<^verbatim>\<open>setTimeout\<close> that have neither run nor been cleared.
\<close>

datatype error = CKEditorError string

datatype dom_event = DomFocus | DomBlur

text \<open>
  The three closures of the class: the two listeners that \<^verbatim>\<open>add\<close> attaches,
  \<^verbatim>\<open>() => this._focus( element )\<close> and \<^verbatim>\<open>() => this._blur()\<close>; the third one, handed to
  \<^verbatim>\<open>setTimeout\<close> by \<^verbatim>\<open>_blur\<close>, is the function \<open>blurTimeout\<close> below.
\<close>

datatype 'e callback = FocusListener 'e | BlurListener

type_synonym timeout_id = nat

record 'e focus_manager =
  isFocused :: bool
  elements :: "'e list"
  nextEventLoopTimeout :: "timeout_id option"
  focusedElement :: "'e option"
  listeners :: "('e \<times> dom_event \<times> 'e callback) list"
  timers :: "timeout_id list"
  nextTimerId :: timeout_id

section \<open>Arrays\<close>

text \<open>\<^verbatim>\<open>Array.prototype.indexOf\<close>: the first index of the value, or \<open>-1\<close>.\<close>

fun indexOf :: "'a list \<Rightarrow> 'a \<Rightarrow> int" where
  "indexOf [] x = - 1"
| "indexOf (y # ys) x =
     (if y = x then 0
      else (let i = indexOf ys x in if i < 0 then - 1 else i + 1))"

text \<open>
  \<^verbatim>\<open>Array.prototype.slice( start, end )\<close>: a new array holding the elements from
  \<open>start\<close> up to, not including, \<open>end\<close>; negative arguments count from the end. The
  receiver is not modified.
\<close>

definition slice :: "'a list \<Rightarrow> int \<Rightarrow> int \<Rightarrow> 'a list" where
  "slice xs start final =
     (let len = int (length xs);
          k = (if start < 0 then max (len + start) 0 else min start len);
          e = (if final < 0 then max (len + final) 0 else min final len)
      in take (nat (e - k)) (drop (nat k) xs))"

section \<open>The environment: subscriptions and timers\<close>

text \<open>
  Modelled from the spec: the mixin \<^verbatim>\<open>DOMEmitterMixin\<close> (ui/domemittermixin.js), whose
  \<^verbatim>\<open>listenTo\<close> and \<^verbatim>\<open>stopListening\<close> the class calls, is not among the sources. The
  spec's contract is that the manager can register and unregister focus-gain and
  focus-lost notifications on an element, with subtree-capturing semantics: the listener
  of an element catches the focus events of the element and of everything inside it.
  \<open>listenTo\<close> stores the callback for the element and the event.
\<close>

definition listenTo ::
  "'e \<Rightarrow> dom_event \<Rightarrow> 'e callback \<Rightarrow> 'e focus_manager \<Rightarrow> 'e focus_manager" where
  "listenTo emitter event callback s =
     s\<lparr>listeners := listeners s @ [(emitter, event, callback)]\<rparr>"

text \<open>
  Modelled from the spec: \<^verbatim>\<open>stopListening\<close> of the same mixin, which cancels the
  element's event subscriptions, all of them.
\<close>

definition stopListening :: "'e \<Rightarrow> 'e focus_manager \<Rightarrow> 'e focus_manager" where
  "stopListening emitter s =
     s\<lparr>listeners := filter (\<lambda>l. fst l \<noteq> emitter) (listeners s)\<rparr>"

text \<open>
  Modelled from the spec: the callbacks that the mixin has stored for one element and
  one event, in the order of their subscription.
\<close>

definition subscribed :: "'e focus_manager \<Rightarrow> 'e \<Rightarrow> dom_event \<Rightarrow> 'e callback list" where
  "subscribed s element event =
     map (\<lambda>l. snd (snd l))
       (filter (\<lambda>l. fst l = element \<and> fst (snd l) = event) (listeners s))"

text \<open>
  Modelled from the spec: the callbacks that an event reaches. An event travels along
  its propagation path, which the document gives when the event is dispatched: the
  elements that contain the target, the outermost first, and the target itself last.
  The listeners of the class are capturing ones (\<^verbatim>\<open>useCapture: true\<close>), so the event
  reaches the callbacks of every element on the path, in the order of the path. An event
  on an element that lies in no other element has the path of that element alone.
\<close>

definition callbacks :: "'e focus_manager \<Rightarrow> 'e list \<Rightarrow> dom_event \<Rightarrow> 'e callback list" where
  "callbacks s path event = concat (map (\<lambda>element. subscribed s element event) path)"

text \<open>
  The host's timers. \<^verbatim>\<open>setTimeout\<close> returns a handle never used before and queues the
  timer; \<^verbatim>\<open>clearTimeout\<close> takes the timer with the given handle out of the queue and does
  nothing for \<^verbatim>\<open>null\<close> or for a handle that is not pending. Every timer of the class is
  started with the same closure and the same delay \<open>0\<close>, so the queue holds the handles
  only, oldest first.
\<close>

definition setTimeout :: "'e focus_manager \<Rightarrow> timeout_id \<times> 'e focus_manager" where
  "setTimeout s =
     (nextTimerId s,
      s\<lparr>timers := timers s @ [nextTimerId s], nextTimerId := nextTimerId s + 1\<rparr>)"

definition clearTimeout :: "timeout_id option \<Rightarrow> 'e focus_manager \<Rightarrow> 'e focus_manager" where
  "clearTimeout handle s =
     (case handle of
        None \<Rightarrow> s
      | Some t \<Rightarrow> s\<lparr>timers := removeAll t (timers s)\<rparr>)"

section \<open>The class\<close>

text \<open>
  The constructor. A new manager has no subscription and no pending timer; the first
  handle that \<^verbatim>\<open>setTimeout\<close> gives it is \<open>1\<close>.
\<close>

definition constructor :: "'e focus_manager" where
  "constructor =
     \<lparr>isFocused = False, elements = [], nextEventLoopTimeout = None,
      focusedElement = None, listeners = [], timers = [], nextTimerId = 1\<rparr>"

text \<open>\<^verbatim>\<open>_focus( element )\<close>\<close>

definition priv_focus :: "'e \<Rightarrow> 'e focus_manager \<Rightarrow> 'e focus_manager" where
  "priv_focus element s =
     (let s1 = clearTimeout (nextEventLoopTimeout s) s
      in s1\<lparr>focusedElement := Some element, isFocused := True\<rparr>)"

text \<open>The closure that \<^verbatim>\<open>_blur\<close> hands to \<^verbatim>\<open>setTimeout\<close>.\<close>

definition blurTimeout :: "'e focus_manager \<Rightarrow> 'e focus_manager" where
  "blurTimeout s = s\<lparr>focusedElement := None, isFocused := False\<rparr>"

text \<open>\<^verbatim>\<open>_blur()\<close>: it takes no parameter, and an argument passed to it is ignored.\<close>

definition priv_blur :: "'e focus_manager \<Rightarrow> 'e focus_manager" where
  "priv_blur s =
     (let (t, s1) = setTimeout s
      in s1\<lparr>nextEventLoopTimeout := Some t\<rparr>)"

text \<open>
  \<^verbatim>\<open>add( element )\<close>. The result pairs what the caller gets (\<open>Inl\<close> the error thrown,
  \<open>Inr ()\<close> a normal return) with the state the call leaves behind.
\<close>

definition add :: "'e \<Rightarrow> 'e focus_manager \<Rightarrow> (error + unit) \<times> 'e focus_manager" where
  "add element s =
     (if indexOf (elements s) element \<ge> 0
      then (Inl (CKEditorError ''focusManager-add-element-already-exist''), s)
      else (let s1 = listenTo element DomFocus (FocusListener element) s;
                s2 = listenTo element DomBlur BlurListener s1
            in (Inr (), s2\<lparr>elements := elements s2 @ [element]\<rparr>)))"

text \<open>
  \<^verbatim>\<open>remove( element )\<close>. The method has no \<^verbatim>\<open>throw\<close>, so the result is the state alone.
  The value of \<^verbatim>\<open>this._elements.slice( elementIndex, 1 )\<close> is computed and dropped, as in
  the source.
\<close>

definition remove :: "'e \<Rightarrow> 'e focus_manager \<Rightarrow> 'e focus_manager" where
  "remove element s =
     (let s1 = (if Some element = focusedElement s then priv_blur s else s);
          elementIndex = indexOf (elements s1) element
      in if elementIndex > - 1
         then (let s2 = stopListening element s1;
                   dropped = slice (elements s2) elementIndex 1
               in s2)
         else s1)"

section \<open>Notifications, timers and runs\<close>

fun invoke :: "'e callback \<Rightarrow> 'e focus_manager \<Rightarrow> 'e focus_manager" where
  "invoke (FocusListener element) s = priv_focus element s"
| "invoke BlurListener s = priv_blur s"

text \<open>
  Modelled from the spec: the delivery of a \<^verbatim>\<open>focus\<close> or \<^verbatim>\<open>blur\<close> event with the given
  propagation path. Every callback that the event reaches is called, the callbacks of an
  outer element before those of an element inside it; an event whose path has no
  subscribed element calls nothing, and the state stays as it is.
\<close>

definition dispatchEvent ::
  "'e list \<Rightarrow> dom_event \<Rightarrow> 'e focus_manager \<Rightarrow> 'e focus_manager" where
  "dispatchEvent path event s = fold invoke (callbacks s path event) s"

text \<open>The host runs the oldest pending timer, if there is one.\<close>

definition runTimeout :: "'e focus_manager \<Rightarrow> 'e focus_manager" where
  "runTimeout s =
     (case timers s of
        [] \<Rightarrow> s
      | t # ts \<Rightarrow> blurTimeout (s\<lparr>timers := ts\<rparr>))"

text \<open>
  What can happen to a manager: a call of \<^verbatim>\<open>add\<close> or \<^verbatim>\<open>remove\<close>, an event dispatched
  along a path, and a timer running. An error thrown by \<^verbatim>\<open>add\<close> goes to the caller and
  the manager stays as the call left it.
\<close>

datatype 'e action = Add 'e | Remove 'e | Dispatch "'e list" dom_event | Timeout

fun step :: "'e action \<Rightarrow> 'e focus_manager \<Rightarrow> 'e focus_manager" where
  "step (Add element) s = snd (add element s)"
| "step (Remove element) s = remove element s"
| "step (Dispatch path event) s = dispatchEvent path event s"
| "step Timeout s = runTimeout s"

definition run :: "'e action list \<Rightarrow> 'e focus_manager \<Rightarrow> 'e focus_manager" where
  "run acts s = fold step acts s"

text \<open>
  An element is listened to when its two listeners, and nothing else, are subscribed:
  the state of an element between its \<^verbatim>\<open>add\<close> and its \<^verbatim>\<open>remove\<close>. It is silent when
  nothing is subscribed for it. On a regular path every element is one or the other, as
  every element is in a run from the constructor.
\<close>

definition listening :: "'e \<Rightarrow> 'e focus_manager \<Rightarrow> bool" where
  "listening element s \<longleftrightarrow>
     subscribed s element DomFocus = [FocusListener element] \<and>
     subscribed s element DomBlur = [BlurListener]"

definition silent :: "'e \<Rightarrow> 'e focus_manager \<Rightarrow> bool" where
  "silent element s \<longleftrightarrow>
     subscribed s element DomFocus = [] \<and> subscribed s element DomBlur = []"

definition regular :: "'e list \<Rightarrow> 'e focus_manager \<Rightarrow> bool" where
  "regular path s \<longleftrightarrow> list_all (\<lambda>x. listening x s \<or> silent x s) path"

text \<open>The elements of a path that are listened to, in the order of the path.\<close>

definition listened :: "'e list \<Rightarrow> 'e focus_manager \<Rightarrow> 'e list" where
  "listened path s = filter (\<lambda>x. listening x s) path"

text \<open>
  Two predicates used by the proofs about runs. In \<open>references_tracked\<close> the focused
  element and the element that every focus listener would record are in \<^verbatim>\<open>_elements\<close>;
  \<open>detached\<close> says of an element of \<^verbatim>\<open>_elements\<close> that no callback is subscribed
  for it.
\<close>

fun callback_tracked :: "'e list \<Rightarrow> 'e callback \<Rightarrow> bool" where
  "callback_tracked xs (FocusListener y) \<longleftrightarrow> y \<in> set xs"
| "callback_tracked xs BlurListener \<longleftrightarrow> True"

definition references_tracked :: "'e focus_manager \<Rightarrow> bool" where
  "references_tracked s \<longleftrightarrow>
     (case focusedElement s of None \<Rightarrow> True | Some x \<Rightarrow> x \<in> set (elements s)) \<and>
     list_all (\<lambda>l. callback_tracked (elements s) (snd (snd l))) (listeners s)"

definition detached :: "'e \<Rightarrow> 'e focus_manager \<Rightarrow> bool" where
  "detached e s \<longleftrightarrow>
     e \<in> set (elements s) \<and> filter (\<lambda>l. fst l = e) (listeners s) = []"

section \<open>Basic facts\<close>

lemma indexOf_ge0: "indexOf xs x \<ge> 0 \<longleftrightarrow> x \<in> set xs"
  by (induction xs) (auto simp: Let_def)

lemma indexOf_gt: "indexOf xs x > - 1 \<longleftrightarrow> x \<in> set xs"
  by (induction xs) (auto simp: Let_def)

lemma run_Nil: "run [] s = s"
  by (simp add: run_def)

lemma run_Cons: "run (a # acts) s = run acts (step a s)"
  by (simp add: run_def)

lemma run_invariant:
  assumes "P s" and "\<And>a s'. P s' \<Longrightarrow> P (step a s')"
  shows "P (run acts s)"
  using assms(1)
proof (induction acts arbitrary: s)
  case Nil
  then show ?case by (simp add: run_Nil)
next
  case (Cons a acts)
  then show ?case by (simp add: run_Cons assms(2))
qed

text \<open>The methods, with the array operations and the environment unfolded.\<close>

lemma priv_blur_eq:
  "priv_blur s =
     s\<lparr>timers := timers s @ [nextTimerId s], nextTimerId := nextTimerId s + 1,
       nextEventLoopTimeout := Some (nextTimerId s)\<rparr>"
  by (simp add: priv_blur_def setTimeout_def)

lemma add_eq:
  "add e s =
     (if e \<in> set (elements s)
      then (Inl (CKEditorError ''focusManager-add-element-already-exist''), s)
      else (Inr (),
            s\<lparr>listeners :=
                listeners s @ [(e, DomFocus, FocusListener e), (e, DomBlur, BlurListener)],
              elements := elements s @ [e]\<rparr>))"
  by (simp add: add_def Let_def indexOf_ge0 listenTo_def)

lemma remove_eq:
  "remove e s =
     (let s1 = (if Some e = focusedElement s then priv_blur s else s)
      in if e \<in> set (elements s) then stopListening e s1 else s1)"
  by (simp add: remove_def Let_def indexOf_gt priv_blur_eq)

text \<open>No callback touches the subscriptions or \<^verbatim>\<open>_elements\<close>.\<close>

lemma invoke_frame:
  "listeners (invoke cb s) = listeners s \<and> elements (invoke cb s) = elements s"
  by (cases cb)
     (simp_all add: priv_focus_def priv_blur_eq clearTimeout_def split: option.splits)

lemma fold_invoke_frame:
  "listeners (fold invoke cbs s) = listeners s \<and>
   elements (fold invoke cbs s) = elements s"
  by (rule fold_invariant [where Q = "\<lambda>_. True"]) (simp_all add: invoke_frame)

lemma dispatch_frame:
  "listeners (dispatchEvent path k s) = listeners s \<and>
   elements (dispatchEvent path k s) = elements s"
  by (simp add: dispatchEvent_def fold_invoke_frame)

lemma subscribed_cong:
  "listeners s' = listeners s \<Longrightarrow> subscribed s' x k = subscribed s x k"
  by (simp add: subscribed_def)

lemma callbacks_cong:
  "listeners s' = listeners s \<Longrightarrow> callbacks s' path k = callbacks s path k"
  by (simp add: callbacks_def subscribed_def)

lemma listening_cong:
  "listeners s' = listeners s \<Longrightarrow> listening x s' = listening x s"
  by (simp add: listening_def subscribed_def)

lemma dispatch_append:
  "dispatchEvent (p @ q) k s = dispatchEvent q k (dispatchEvent p k s)"
proof -
  have "callbacks (dispatchEvent p k s) q k = callbacks s q k"
    by (rule callbacks_cong) (simp add: dispatch_frame)
  then show ?thesis
    by (simp add: dispatchEvent_def callbacks_def)
qed

lemma dispatch_single:
  "dispatchEvent [x] k s = fold invoke (subscribed s x k) s"
  by (simp add: dispatchEvent_def callbacks_def)

lemma dispatch_none:
  assumes "list_all (\<lambda>x. subscribed s x k = []) path"
  shows "dispatchEvent path k s = s"
proof -
  from assms have "callbacks s path k = []"
    by (induction path) (simp_all add: callbacks_def)
  then show ?thesis by (simp add: dispatchEvent_def)
qed

text \<open>
  On a regular path a \<^verbatim>\<open>blur\<close> event reaches one \<^verbatim>\<open>_blur\<close> for every element listened
  to, and a \<^verbatim>\<open>focus\<close> event one \<^verbatim>\<open>_focus\<close> with that element.
\<close>

lemma callbacks_blur:
  "regular path s \<Longrightarrow>
   callbacks s path DomBlur = replicate (length (listened path s)) BlurListener"
  by (induction path)
     (auto simp: regular_def listened_def callbacks_def listening_def silent_def)

lemma callbacks_focus:
  "regular path s \<Longrightarrow> callbacks s path DomFocus = map FocusListener (listened path s)"
  by (induction path)
     (auto simp: regular_def listened_def callbacks_def listening_def silent_def)

lemma regular_snoc: "regular q s \<Longrightarrow> listening e s \<Longrightarrow> regular (q @ [e]) s"
  by (simp add: regular_def)

lemma listened_snoc: "listening e s \<Longrightarrow> listened (q @ [e]) s = listened q s @ [e]"
  by (simp add: listened_def)

lemma fold_blur: "fold invoke (replicate n BlurListener) s = (priv_blur ^^ n) s"
  by (induction n arbitrary: s) (simp_all add: funpow_swap1)

lemma funpow_priv_blur:
  "isFocused ((priv_blur ^^ n) s) = isFocused s \<and>
   focusedElement ((priv_blur ^^ n) s) = focusedElement s \<and>
   listeners ((priv_blur ^^ n) s) = listeners s \<and>
   nextTimerId ((priv_blur ^^ n) s) = nextTimerId s + n \<and>
   timers ((priv_blur ^^ n) s) = timers s @ [nextTimerId s ..< nextTimerId s + n] \<and>
   nextEventLoopTimeout ((priv_blur ^^ Suc n) s) = Some (nextTimerId s + n)"
  by (induction n) (simp_all add: priv_blur_eq)

lemma fold_focus_handle:
  "nextEventLoopTimeout (fold invoke (map FocusListener xs) s) = nextEventLoopTimeout s \<and>
   listeners (fold invoke (map FocusListener xs) s) = listeners s"
  by (induction xs arbitrary: s)
     (simp_all add: priv_focus_def clearTimeout_def split: option.splits)

text \<open>Timers run oldest first, and a timer that runs clears the focus state.\<close>

lemma timers_funpow_runTimeout: "timers ((runTimeout ^^ n) s) = drop n (timers s)"
proof (induction n arbitrary: s)
  case 0
  show ?case by simp
next
  case (Suc n)
  have "timers (runTimeout s) = drop 1 (timers s)"
    by (simp add: runTimeout_def blurTimeout_def drop_Suc split: list.splits)
  then show ?case
    by (simp add: funpow_swap1 Suc.IH drop_Suc tl_drop)
qed

lemma runTimeout_clears:
  "timers s \<noteq> [] \<Longrightarrow>
   \<not> isFocused (runTimeout s) \<and> focusedElement (runTimeout s) = None"
  by (simp add: runTimeout_def blurTimeout_def split: list.splits)

section \<open>Registration\<close>

text \<open>
  Claim C5. For an element that is not in \<^verbatim>\<open>_elements\<close>, \<^verbatim>\<open>add\<close> returns normally and
  the element is in \<^verbatim>\<open>_elements\<close> afterwards, appended at the end. For an element that is
  in \<^verbatim>\<open>_elements\<close>, \<^verbatim>\<open>add\<close> throws the error \<^verbatim>\<open>focusManager-add-element-already-exist\<close>
  and the whole state is as before the call: no second entry, no listener, the same
  \<^verbatim>\<open>isFocused\<close> and the same focused element.
\<close>

theorem add_new_or_duplicate:
  "(e \<notin> set (elements s) \<longrightarrow>
      fst (add e s) = Inr () \<and>
      elements (snd (add e s)) = elements s @ [e] \<and>
      e \<in> set (elements (snd (add e s)))) \<and>
   (e \<in> set (elements s) \<longrightarrow>
      add e s = (Inl (CKEditorError ''focusManager-add-element-already-exist''), s))"
  by (simp add: add_eq)

theorem add_new_or_duplicate_witness:
  "(1::nat) \<notin> set (elements (constructor :: nat focus_manager)) \<and>
   fst (add (1::nat) constructor) = Inr () \<and>
   elements (snd (add (1::nat) constructor)) = [1] \<and>
   (1::nat) \<in> set (elements (run [Add 1] constructor)) \<and>
   add (1::nat) (run [Add 1] constructor) =
     (Inl (CKEditorError ''focusManager-add-element-already-exist''),
      run [Add 1] constructor)"
proof -
  have fresh: "(1::nat) \<notin> set (elements (constructor :: nat focus_manager))"
    by (simp add: constructor_def)
  have known: "(1::nat) \<in> set (elements (run [Add 1] constructor))"
    by code_simp
  have "elements (constructor :: nat focus_manager) @ [1] = [1]"
    by (simp add: constructor_def)
  with fresh known
    add_new_or_duplicate [of "1::nat" constructor]
    add_new_or_duplicate [of "1::nat" "run [Add 1] constructor"]
  show ?thesis by simp
qed

text \<open>
  Claim C4. \<^verbatim>\<open>remove\<close> leaves \<^verbatim>\<open>_elements\<close> as it is: the value of the \<^verbatim>\<open>slice\<close> expression
  is dropped and the array is not changed. So an element of \<^verbatim>\<open>_elements\<close> is still in it
  after its \<^verbatim>\<open>remove\<close>, and an \<^verbatim>\<open>add\<close> of it that follows throws the error of a
  duplicate registration.
\<close>

theorem remove_keeps_element:
  assumes "e \<in> set (elements s)"
  shows "elements (remove e s) = elements s \<and>
         e \<in> set (elements (remove e s)) \<and>
         fst (add e (remove e s)) =
           Inl (CKEditorError ''focusManager-add-element-already-exist'')"
proof -
  have "elements (remove e s) = elements s"
    by (simp add: remove_eq Let_def priv_blur_eq stopListening_def)
  with assms show ?thesis by (simp add: add_eq)
qed

theorem remove_keeps_element_witness:
  "(1::nat) \<in> set (elements (run [Add 1, Add 2] constructor)) \<and>
   elements (remove (1::nat) (run [Add 1, Add 2] constructor)) = [1, 2] \<and>
   fst (add (1::nat) (remove 1 (run [Add 1, Add 2] constructor))) =
     Inl (CKEditorError ''focusManager-add-element-already-exist'')"
proof -
  have h: "(1::nat) \<in> set (elements (run [Add 1, Add 2] constructor))"
    by code_simp
  have "elements (run [Add (1::nat), Add 2] constructor) = [1, 2]"
    by code_simp
  with h remove_keeps_element [OF h] show ?thesis by simp
qed

section \<open>The focus state and the element reference\<close>

lemma invoke_flag:
  "(isFocused s \<longleftrightarrow> focusedElement s \<noteq> None) \<Longrightarrow>
   (isFocused (invoke cb s) \<longleftrightarrow> focusedElement (invoke cb s) \<noteq> None)"
  by (cases cb)
     (simp_all add: priv_focus_def priv_blur_eq clearTimeout_def split: option.splits)

lemma dispatch_flag:
  assumes "isFocused s \<longleftrightarrow> focusedElement s \<noteq> None"
  shows "isFocused (dispatchEvent path k s) \<longleftrightarrow>
         focusedElement (dispatchEvent path k s) \<noteq> None"
  unfolding dispatchEvent_def
  by (rule fold_invariant [where Q = "\<lambda>_. True"]) (simp_all add: assms invoke_flag)

lemma step_flag:
  assumes "isFocused s \<longleftrightarrow> focusedElement s \<noteq> None"
  shows "isFocused (step a s) \<longleftrightarrow> focusedElement (step a s) \<noteq> None"
proof (cases a)
  case (Add e)
  then show ?thesis using assms by (simp add: add_eq)
next
  case (Remove e)
  then show ?thesis using assms
    by (simp add: remove_eq Let_def priv_blur_eq stopListening_def)
next
  case (Dispatch path k)
  then show ?thesis using assms by (simp add: dispatch_flag)
next
  case Timeout
  then show ?thesis using assms
    by (simp add: runTimeout_def blurTimeout_def split: list.splits)
qed

text \<open>
  Claim C10. A manager fresh from the constructor has \<^verbatim>\<open>isFocused\<close> false and no focused
  element, and after any sequence of calls of \<^verbatim>\<open>add\<close> and \<^verbatim>\<open>remove\<close>, deliveries of
  \<^verbatim>\<open>focus\<close> and \<^verbatim>\<open>blur\<close> events and runs of pending timers, \<^verbatim>\<open>isFocused\<close> is true exactly
  when \<^verbatim>\<open>_focusedElement\<close> is not \<^verbatim>\<open>null\<close>.
\<close>

theorem isFocused_iff_focusedElement:
  "\<not> isFocused (constructor :: 'e focus_manager) \<and>
   focusedElement (constructor :: 'e focus_manager) = None \<and>
   (isFocused (run acts (constructor :: 'e focus_manager)) \<longleftrightarrow>
    focusedElement (run acts (constructor :: 'e focus_manager)) \<noteq> None)"
proof -
  have "isFocused (run acts (constructor :: 'e focus_manager)) \<longleftrightarrow>
        focusedElement (run acts (constructor :: 'e focus_manager)) \<noteq> None"
    by (rule run_invariant) (simp_all add: constructor_def step_flag)
  then show ?thesis by (simp add: constructor_def)
qed

section \<open>Subscriptions in a run\<close>

text \<open>
  In every state of a run from the constructor an element either is listened to or is
  silent: \<open>listening\<close> is the state of an element that was added and has not been
  removed since, and every path is regular.
\<close>

lemma step_subscribed:
  assumes "filter (\<lambda>l. fst l = e) (listeners s) = [] \<or>
           e \<in> set (elements s) \<and>
           filter (\<lambda>l. fst l = e) (listeners s) =
             [(e, DomFocus, FocusListener e), (e, DomBlur, BlurListener)]"
  shows "filter (\<lambda>l. fst l = e) (listeners (step a s)) = [] \<or>
         e \<in> set (elements (step a s)) \<and>
         filter (\<lambda>l. fst l = e) (listeners (step a s)) =
           [(e, DomFocus, FocusListener e), (e, DomBlur, BlurListener)]"
proof (cases a)
  case (Add x)
  then show ?thesis using assms by (auto simp: add_eq)
next
  case (Remove x)
  have "filter (\<lambda>l. fst l = e) (filter (\<lambda>l. fst l \<noteq> x) (listeners s)) =
        (if x = e then [] else filter (\<lambda>l. fst l = e) (listeners s))"
    by (induction "listeners s") (auto simp: filter_empty_conv intro: filter_cong)
  with Remove show ?thesis using assms
    by (auto simp: remove_eq Let_def priv_blur_eq stopListening_def)
next
  case (Dispatch path k)
  then show ?thesis using assms by (simp add: dispatch_frame)
next
  case Timeout
  then show ?thesis using assms
    by (auto simp: runTimeout_def blurTimeout_def split: list.splits)
qed

lemma run_listening_or_silent:
  "listening (e :: 'e) (run acts constructor) \<or> silent e (run acts constructor)"
proof -
  let ?P = "\<lambda>s :: 'e focus_manager. filter (\<lambda>l. fst l = e) (listeners s) = [] \<or>
           e \<in> set (elements s) \<and>
           filter (\<lambda>l. fst l = e) (listeners s) =
             [(e, DomFocus, FocusListener e), (e, DomBlur, BlurListener)]"
  have "?P (run acts constructor)"
  proof (rule run_invariant)
    show "?P constructor" by (simp add: constructor_def)
  next
    fix a s' assume "?P s'"
    then show "?P (step a s')" by (rule step_subscribed)
  qed
  moreover have c: "subscribed s e k =
      map (\<lambda>l. snd (snd l))
        (filter (\<lambda>l. fst (snd l) = k) (filter (\<lambda>l. fst l = e) (listeners s)))" for s k
    by (simp add: subscribed_def conj_commute)
  ultimately show ?thesis
    by (auto simp: listening_def silent_def c simp del: filter_filter)
qed

lemma run_regular: "regular path (run acts constructor)"
  by (simp add: regular_def list_all_iff run_listening_or_silent)

section \<open>Focus-gain and focus-lost notifications\<close>

text \<open>
  Claim C1. Let \<open>e1\<close> and \<open>e2\<close> be listened to, \<open>e1\<close> the focused element and
  \<^verbatim>\<open>isFocused\<close> true. A \<^verbatim>\<open>blur\<close> event on \<open>e1\<close> followed, with no timer running in
  between, by a \<^verbatim>\<open>focus\<close> event on \<open>e2\<close> leaves \<^verbatim>\<open>isFocused\<close> true after the first
  event and after the second one, and the focused element is \<open>e2\<close> at the end. The
  timer that the \<^verbatim>\<open>_blur\<close> of \<open>e1\<close> started is no longer pending then. The elements
  \<open>q1\<close> that contain \<open>e1\<close> and the elements \<open>q2\<close> that contain \<open>e2\<close> are any
  regular paths; for two elements that lie in no other element both are empty.
\<close>

theorem handoff_keeps_isFocused:
  assumes "regular q1 s" and "regular q2 s"
    and "listening e1 s" and "listening e2 s"
    and "focusedElement s = Some e1" and "isFocused s"
  shows "isFocused (dispatchEvent (q1 @ [e1]) DomBlur s) \<and>
         focusedElement (dispatchEvent (q1 @ [e1]) DomBlur s) = Some e1 \<and>
         isFocused
           (dispatchEvent (q2 @ [e2]) DomFocus (dispatchEvent (q1 @ [e1]) DomBlur s)) \<and>
         focusedElement
           (dispatchEvent (q2 @ [e2]) DomFocus (dispatchEvent (q1 @ [e1]) DomBlur s)) =
           Some e2 \<and>
         nextEventLoopTimeout (dispatchEvent (q1 @ [e1]) DomBlur s) =
           Some (nextTimerId s + length (listened q1 s)) \<and>
         nextTimerId s + length (listened q1 s) \<notin>
           set (timers
             (dispatchEvent (q2 @ [e2]) DomFocus (dispatchEvent (q1 @ [e1]) DomBlur s)))"
proof -
  let ?n = "length (listened q1 s)"
  let ?s1 = "dispatchEvent (q1 @ [e1]) DomBlur s"
  have "callbacks s (q1 @ [e1]) DomBlur = replicate (Suc ?n) BlurListener"
    using callbacks_blur [OF regular_snoc [OF assms(1,3)]] assms(3)
    by (simp add: listened_snoc)
  then have s1: "?s1 = (priv_blur ^^ Suc ?n) s"
    by (simp only: dispatchEvent_def fold_blur)
  have l1: "listeners ?s1 = listeners s"
    by (simp add: dispatch_frame)
  have f1: "isFocused ?s1" "focusedElement ?s1 = Some e1"
    unfolding s1 using funpow_priv_blur [of "Suc ?n" s] assms(5,6) by simp_all
  have h1: "nextEventLoopTimeout ?s1 = Some (nextTimerId s + ?n)"
    unfolding s1 using funpow_priv_blur [of ?n s] by simp
  let ?mid = "fold invoke (map FocusListener (listened q2 s)) ?s1"
  have "callbacks ?s1 (q2 @ [e2]) DomFocus = callbacks s (q2 @ [e2]) DomFocus"
    using l1 by (rule callbacks_cong)
  also have "\<dots> = map FocusListener (listened q2 s) @ [FocusListener e2]"
    using callbacks_focus [OF regular_snoc [OF assms(2,4)]] assms(4)
    by (simp add: listened_snoc)
  finally have s2: "dispatchEvent (q2 @ [e2]) DomFocus ?s1 = priv_focus e2 ?mid"
    by (simp add: dispatchEvent_def)
  have "nextEventLoopTimeout ?mid = Some (nextTimerId s + ?n)"
    using fold_focus_handle [of "listened q2 s" ?s1] h1 by simp
  then have "isFocused (priv_focus e2 ?mid) \<and>
             focusedElement (priv_focus e2 ?mid) = Some e2 \<and>
             nextTimerId s + ?n \<notin> set (timers (priv_focus e2 ?mid))"
    by (simp add: priv_focus_def clearTimeout_def)
  with f1 h1 show ?thesis
    unfolding s2 by simp
qed

theorem handoff_keeps_isFocused_witness:
  "regular [1::nat] (run [Add 1, Add 2, Add 3, Dispatch [1, 2] DomFocus] constructor) \<and>
   listening (2::nat) (run [Add 1, Add 2, Add 3, Dispatch [1, 2] DomFocus] constructor) \<and>
   listening (3::nat) (run [Add 1, Add 2, Add 3, Dispatch [1, 2] DomFocus] constructor) \<and>
   focusedElement
     (run [Add (1::nat), Add 2, Add 3, Dispatch [1, 2] DomFocus] constructor) = Some 2 \<and>
   isFocused (run [Add (1::nat), Add 2, Add 3, Dispatch [1, 2] DomFocus] constructor) \<and>
   isFocused (dispatchEvent [1, 2] DomBlur
     (run [Add (1::nat), Add 2, Add 3, Dispatch [1, 2] DomFocus] constructor)) \<and>
   isFocused (dispatchEvent [1, 3] DomFocus (dispatchEvent [1, 2] DomBlur
     (run [Add (1::nat), Add 2, Add 3, Dispatch [1, 2] DomFocus] constructor))) \<and>
   focusedElement (dispatchEvent [1, 3] DomFocus (dispatchEvent [1, 2] DomBlur
     (run [Add (1::nat), Add 2, Add 3, Dispatch [1, 2] DomFocus] constructor))) = Some 3"
proof -
  let ?s = "run [Add (1::nat), Add 2, Add 3, Dispatch [1, 2] DomFocus] constructor"
  have r: "regular [1] ?s" by code_simp
  have h1: "listening 2 ?s" by code_simp
  have h2: "listening 3 ?s" by code_simp
  have h3: "focusedElement ?s = Some 2" by code_simp
  have h4: "isFocused ?s" by code_simp
  from handoff_keeps_isFocused [OF r r h1 h2 h3 h4] r h1 h2 h3 h4 show ?thesis
    by simp
qed

text \<open>
  Claim C7. Let \<open>e\<close> be listened to and the focused element, inside the elements of a
  regular path \<open>q\<close> (none, for an element that lies in no other one). A \<^verbatim>\<open>blur\<close> event
  on \<open>e\<close> changes neither \<^verbatim>\<open>isFocused\<close> nor the focused element; it puts new timers at
  the end of the queue, one for every element of \<open>q\<close> that is listened to and the last
  one for \<open>e\<close>. With no event in between, once the timers before the last have run,
  the timer of \<open>e\<close> is the one left, and when it runs \<^verbatim>\<open>isFocused\<close> is false and the
  focused element is cleared.
\<close>

theorem blur_is_deferred:
  assumes "regular q s" and "listening e s" and "focusedElement s = Some e"
  shows "isFocused (dispatchEvent (q @ [e]) DomBlur s) = isFocused s \<and>
         focusedElement (dispatchEvent (q @ [e]) DomBlur s) = Some e \<and>
         timers (dispatchEvent (q @ [e]) DomBlur s) =
           timers s @ [nextTimerId s ..< nextTimerId s + length (listened q s) + 1] \<and>
         timers ((runTimeout ^^ (length (timers s) + length (listened q s)))
                   (dispatchEvent (q @ [e]) DomBlur s)) =
           [nextTimerId s + length (listened q s)] \<and>
         \<not> isFocused
             (runTimeout ((runTimeout ^^ (length (timers s) + length (listened q s)))
                (dispatchEvent (q @ [e]) DomBlur s))) \<and>
         focusedElement
           (runTimeout ((runTimeout ^^ (length (timers s) + length (listened q s)))
              (dispatchEvent (q @ [e]) DomBlur s))) = None"
proof -
  let ?n = "length (listened q s)"
  let ?s1 = "dispatchEvent (q @ [e]) DomBlur s"
  have "callbacks s (q @ [e]) DomBlur = replicate (Suc ?n) BlurListener"
    using callbacks_blur [OF regular_snoc [OF assms(1,2)]] assms(2)
    by (simp add: listened_snoc)
  then have s1: "?s1 = (priv_blur ^^ Suc ?n) s"
    by (simp only: dispatchEvent_def fold_blur)
  have f: "isFocused ?s1 = isFocused s" "focusedElement ?s1 = Some e"
    unfolding s1 using funpow_priv_blur [of "Suc ?n" s] assms(3) by simp_all
  have t: "timers ?s1 = timers s @ [nextTimerId s ..< nextTimerId s + ?n + 1]"
    unfolding s1 using funpow_priv_blur [of "Suc ?n" s] by simp
  have q: "timers ((runTimeout ^^ (length (timers s) + ?n)) ?s1) = [nextTimerId s + ?n]"
    by (simp add: timers_funpow_runTimeout t)
  then have "timers ((runTimeout ^^ (length (timers s) + ?n)) ?s1) \<noteq> []"
    by simp
  from runTimeout_clears [OF this] q t f show ?thesis
    by simp
qed

theorem blur_is_deferred_witness:
  "regular [1::nat] (run [Add 1, Add 2, Dispatch [1, 2] DomFocus] constructor) \<and>
   listening (2::nat) (run [Add 1, Add 2, Dispatch [1, 2] DomFocus] constructor) \<and>
   focusedElement (run [Add (1::nat), Add 2, Dispatch [1, 2] DomFocus] constructor) =
     Some 2 \<and>
   isFocused (dispatchEvent [1, 2] DomBlur
     (run [Add (1::nat), Add 2, Dispatch [1, 2] DomFocus] constructor)) \<and>
   focusedElement (dispatchEvent [1, 2] DomBlur
     (run [Add (1::nat), Add 2, Dispatch [1, 2] DomFocus] constructor)) = Some 2 \<and>
   timers (dispatchEvent [1, 2] DomBlur
     (run [Add (1::nat), Add 2, Dispatch [1, 2] DomFocus] constructor)) = [1, 2] \<and>
   \<not> isFocused (runTimeout (runTimeout (dispatchEvent [1, 2] DomBlur
     (run [Add (1::nat), Add 2, Dispatch [1, 2] DomFocus] constructor)))) \<and>
   focusedElement (runTimeout (runTimeout (dispatchEvent [1, 2] DomBlur
     (run [Add (1::nat), Add 2, Dispatch [1, 2] DomFocus] constructor)))) = None"
proof -
  let ?s = "run [Add (1::nat), Add 2, Dispatch [1, 2] DomFocus] constructor"
  have r: "regular [1] ?s" by code_simp
  have h1: "listening 2 ?s" by code_simp
  have h2: "focusedElement ?s = Some 2" by code_simp
  have h3: "isFocused ?s" by code_simp
  have n: "length (listened [1] ?s) = 1" by code_simp
  have t: "timers ?s = []" by code_simp
  have i: "nextTimerId ?s = 1" by code_simp
  have u: "[1 ..< 3] = [1::nat, 2]" by code_simp
  from blur_is_deferred [OF r h1 h2] r h1 h2 h3 u show ?thesis
    unfolding n t i by (simp add: numeral_2_eq_2 numeral_3_eq_3)
qed

text \<open>
  What a \<^verbatim>\<open>focus\<close> event on a listened element does in the same step: the element is
  recorded, \<^verbatim>\<open>isFocused\<close> is true, and the timer whose handle the manager holds is not
  pending any more. Of a timer started before that one, nothing is said.
\<close>

lemma focus_notification_effect:
  assumes "regular q s" and "listening e s"
  shows "focusedElement (dispatchEvent (q @ [e]) DomFocus s) = Some e \<and>
         isFocused (dispatchEvent (q @ [e]) DomFocus s) \<and>
         (\<forall>t. nextEventLoopTimeout s = Some t \<longrightarrow>
              t \<notin> set (timers (dispatchEvent (q @ [e]) DomFocus s)))"
proof -
  let ?mid = "fold invoke (map FocusListener (listened q s)) s"
  have "callbacks s (q @ [e]) DomFocus = map FocusListener (listened q s) @ [FocusListener e]"
    using callbacks_focus [OF regular_snoc [OF assms]] assms(2)
    by (simp add: listened_snoc)
  then have "dispatchEvent (q @ [e]) DomFocus s = priv_focus e ?mid"
    by (simp add: dispatchEvent_def)
  moreover have "nextEventLoopTimeout ?mid = nextEventLoopTimeout s"
    using fold_focus_handle [of "listened q s" s] by simp
  ultimately show ?thesis
    by (simp add: priv_focus_def clearTimeout_def)
qed

text \<open>
  Claim C3. The claim: a timer started while another one is pending cancels that one,
  so at most one deferred action is outstanding in any state that can be reached. The
  code does not do this: \<^verbatim>\<open>_blur\<close> stores the new handle over the old one and has no
  \<^verbatim>\<open>clearTimeout\<close>. Element \<open>2\<close> lies inside element \<open>1\<close> and both are added; the
  focus goes into \<open>2\<close> and leaves it again. The \<^verbatim>\<open>blur\<close> event reaches the listener of
  \<open>1\<close> and then that of \<open>2\<close>: two timers are pending, the one started first has not
  been cancelled, and the manager holds the handle of the second alone.
\<close>

theorem blur_leaves_earlier_timer_pending:
  "timers (run [Add (1::nat), Add 2, Dispatch [1, 2] DomFocus, Dispatch [1, 2] DomBlur]
             constructor) = [1, 2] \<and>
   length (timers (run [Add (1::nat), Add 2, Dispatch [1, 2] DomFocus,
                        Dispatch [1, 2] DomBlur] constructor)) = 2 \<and>
   nextEventLoopTimeout (run [Add (1::nat), Add 2, Dispatch [1, 2] DomFocus,
                              Dispatch [1, 2] DomBlur] constructor) = Some 2"
  by code_simp

text \<open>
  Claim C6. The claim: a \<^verbatim>\<open>focus\<close> event on a tracked element cancels any pending timer,
  records the element and sets \<^verbatim>\<open>isFocused\<close>, all in the same step. The code records
  the element and sets \<^verbatim>\<open>isFocused\<close>, but it cancels the timer of the held handle
  only. In the run of claim C3 the focus comes back into element \<open>2\<close>: each \<^verbatim>\<open>_focus\<close>
  clears timer \<open>2\<close>, timer \<open>1\<close> stays pending, and when it runs \<^verbatim>\<open>isFocused\<close> is
  false and the focused element is cleared although element \<open>2\<close> has the focus.
\<close>

theorem focus_leaves_earlier_timer_pending:
  "timers (run [Add (1::nat), Add 2, Dispatch [1, 2] DomFocus, Dispatch [1, 2] DomBlur,
                Dispatch [1, 2] DomFocus] constructor) = [1] \<and>
   focusedElement (run [Add (1::nat), Add 2, Dispatch [1, 2] DomFocus,
                        Dispatch [1, 2] DomBlur, Dispatch [1, 2] DomFocus] constructor) =
     Some 2 \<and>
   isFocused (run [Add (1::nat), Add 2, Dispatch [1, 2] DomFocus, Dispatch [1, 2] DomBlur,
                   Dispatch [1, 2] DomFocus] constructor) \<and>
   \<not> isFocused (run [Add (1::nat), Add 2, Dispatch [1, 2] DomFocus,
                     Dispatch [1, 2] DomBlur, Dispatch [1, 2] DomFocus, Timeout]
                  constructor) \<and>
   focusedElement (run [Add (1::nat), Add 2, Dispatch [1, 2] DomFocus,
                        Dispatch [1, 2] DomBlur, Dispatch [1, 2] DomFocus, Timeout]
                     constructor) = None"
  by code_simp

section \<open>Removal\<close>

text \<open>
  Claim C2, as amended. \<^verbatim>\<open>remove\<close> of the focused element does not clear the focus
  state before it returns. It calls \<^verbatim>\<open>_blur\<close>, as a \<^verbatim>\<open>blur\<close> event does: when \<^verbatim>\<open>remove\<close>
  returns, \<^verbatim>\<open>isFocused\<close> and the focused element are as before the call and one new
  timer is at the end of the queue. With no event in between, once the timers that were
  pending before have run, the new timer is the one left, and when it runs \<^verbatim>\<open>isFocused\<close>
  is false and the focused element is cleared.
\<close>

theorem remove_focused_is_deferred:
  assumes "focusedElement s = Some e"
  shows "isFocused (remove e s) = isFocused s \<and>
         focusedElement (remove e s) = Some e \<and>
         timers (remove e s) = timers s @ [nextTimerId s] \<and>
         nextEventLoopTimeout (remove e s) = Some (nextTimerId s) \<and>
         timers ((runTimeout ^^ length (timers s)) (remove e s)) = [nextTimerId s] \<and>
         \<not> isFocused (runTimeout ((runTimeout ^^ length (timers s)) (remove e s))) \<and>
         focusedElement (runTimeout ((runTimeout ^^ length (timers s)) (remove e s))) = None"
proof -
  have t: "timers (remove e s) = timers s @ [nextTimerId s]"
    using assms by (simp add: remove_eq Let_def priv_blur_eq stopListening_def)
  have q: "timers ((runTimeout ^^ length (timers s)) (remove e s)) = [nextTimerId s]"
    by (simp add: timers_funpow_runTimeout t)
  then have "timers ((runTimeout ^^ length (timers s)) (remove e s)) \<noteq> []"
    by simp
  from runTimeout_clears [OF this] q t show ?thesis
    using assms by (simp add: remove_eq Let_def priv_blur_eq stopListening_def)
qed

theorem remove_focused_is_deferred_witness:
  "focusedElement (run [Add (1::nat), Dispatch [1] DomFocus] constructor) = Some 1 \<and>
   isFocused (remove (1::nat) (run [Add 1, Dispatch [1] DomFocus] constructor)) \<and>
   timers (remove (1::nat) (run [Add 1, Dispatch [1] DomFocus] constructor)) = [1] \<and>
   \<not> isFocused (runTimeout
       (remove (1::nat) (run [Add 1, Dispatch [1] DomFocus] constructor))) \<and>
   focusedElement (runTimeout
       (remove (1::nat) (run [Add 1, Dispatch [1] DomFocus] constructor))) = None"
proof -
  let ?s = "run [Add (1::nat), Dispatch [1] DomFocus] constructor"
  have h: "focusedElement ?s = Some 1" by code_simp
  have f: "isFocused ?s" by code_simp
  have t: "timers ?s = []" by code_simp
  have n: "nextTimerId ?s = 1" by code_simp
  from remove_focused_is_deferred [OF h] h f show ?thesis
    unfolding t n by simp
qed

text \<open>
  Where the claim as stated fails: element \<open>1\<close> is added and focused, and when
  \<^verbatim>\<open>remove\<close> of it has returned \<^verbatim>\<open>isFocused\<close> is still true and the focused element is
  still \<open>1\<close>.
\<close>

theorem remove_focused_immediate_counterexample:
  "focusedElement (run [Add (1::nat), Dispatch [1] DomFocus] constructor) = Some 1 \<and>
   isFocused (remove (1::nat) (run [Add 1, Dispatch [1] DomFocus] constructor)) \<and>
   focusedElement (remove (1::nat) (run [Add 1, Dispatch [1] DomFocus] constructor)) =
     Some 1"
  by code_simp

text \<open>
  In every state of a run from the constructor the focused element and the elements of
  the focus listeners are in \<^verbatim>\<open>_elements\<close>, and only an \<^verbatim>\<open>add\<close> puts an element there.
\<close>

lemma callback_tracked_mono:
  "callback_tracked xs cb \<Longrightarrow> set xs \<subseteq> set ys \<Longrightarrow> callback_tracked ys cb"
  by (cases cb) auto

lemma invoke_tracked:
  assumes "references_tracked s" and "callback_tracked (elements s) cb"
  shows "references_tracked (invoke cb s)"
  using assms
  by (cases cb)
     (auto simp: references_tracked_def priv_focus_def priv_blur_eq clearTimeout_def
           split: option.splits)

lemma dispatch_tracked:
  assumes "references_tracked s"
  shows "references_tracked (dispatchEvent path k s)"
proof -
  have "references_tracked (fold invoke (callbacks s path k) s) \<and>
        elements (fold invoke (callbacks s path k) s) = elements s"
  proof (rule fold_invariant [where Q = "callback_tracked (elements s)"])
    fix cb assume "cb \<in> set (callbacks s path k)"
    then show "callback_tracked (elements s) cb"
      using assms
      by (auto simp: callbacks_def subscribed_def references_tracked_def list_all_iff)
  next
    show "references_tracked s \<and> elements s = elements s"
      using assms by simp
  next
    fix cb s'
    assume "callback_tracked (elements s) cb"
      and "references_tracked s' \<and> elements s' = elements s"
    then show "references_tracked (invoke cb s') \<and> elements (invoke cb s') = elements s"
      by (simp add: invoke_tracked invoke_frame)
  qed
  then show ?thesis by (simp add: dispatchEvent_def)
qed

lemma step_tracked:
  assumes "references_tracked s"
  shows "references_tracked (step a s)"
proof (cases a)
  case (Add e)
  then show ?thesis using assms
    by (auto simp: add_eq references_tracked_def list_all_iff
             split: option.splits intro: callback_tracked_mono)
next
  case (Remove e)
  then show ?thesis using assms
    by (auto simp: remove_eq Let_def priv_blur_eq stopListening_def references_tracked_def
                   list_all_iff split: option.splits)
next
  case (Dispatch path k)
  then show ?thesis using assms by (simp add: dispatch_tracked)
next
  case Timeout
  then show ?thesis using assms
    by (auto simp: runTimeout_def blurTimeout_def references_tracked_def
             split: list.splits option.splits)
qed

lemma run_tracked: "references_tracked (run acts constructor)"
proof (rule run_invariant)
  show "references_tracked constructor"
    by (simp add: references_tracked_def constructor_def)
next
  fix a and s' :: "'a focus_manager"
  assume "references_tracked s'"
  then show "references_tracked (step a s')" by (rule step_tracked)
qed

lemma elements_step:
  "x \<in> set (elements (step a s)) \<Longrightarrow> x \<in> set (elements s) \<or> a = Add x"
  by (cases a)
     (auto simp: add_eq remove_eq Let_def priv_blur_eq stopListening_def dispatch_frame
                 runTimeout_def blurTimeout_def split: if_splits list.splits)

lemma elements_run:
  "x \<in> set (elements (run acts s)) \<Longrightarrow> x \<in> set (elements s) \<or> Add x \<in> set acts"
proof (induction acts arbitrary: s)
  case Nil
  then show ?case by (simp add: run_Nil)
next
  case (Cons a acts)
  from Cons.prems have "x \<in> set (elements (run acts (step a s)))"
    by (simp add: run_Cons)
  then have "x \<in> set (elements (step a s)) \<or> Add x \<in> set acts"
    by (rule Cons.IH)
  then show ?case using elements_step [of x a s] by auto
qed

lemma remove_untracked:
  "e \<notin> set (elements s) \<Longrightarrow> focusedElement s \<noteq> Some e \<Longrightarrow> remove e s = s"
  by (auto simp: remove_eq)

text \<open>
  Claim C8. In a state reached from the constructor by a run in which \<open>e\<close> was never
  added, \<^verbatim>\<open>remove\<close> of \<open>e\<close> returns with the whole state unchanged: \<^verbatim>\<open>_elements\<close>,
  \<^verbatim>\<open>isFocused\<close>, the focused element, the timer handle and the pending timers. \<^verbatim>\<open>remove\<close>
  has no \<^verbatim>\<open>throw\<close>, so it raises nothing.
\<close>

theorem remove_never_added:
  assumes "Add e \<notin> set acts"
  shows "remove e (run acts constructor) = run acts constructor"
proof -
  have "references_tracked (run acts (constructor :: 'a focus_manager))"
    by (rule run_tracked)
  moreover have "e \<notin> set (elements (run acts constructor))"
    using assms elements_run [of e acts constructor] by (auto simp: constructor_def)
  ultimately show ?thesis
    by (intro remove_untracked) (auto simp: references_tracked_def split: option.splits)
qed

theorem remove_never_added_witness:
  "Add (3::nat) \<notin> set [Add 1, Add 2, Dispatch [1, 2] DomFocus, Dispatch [1, 2] DomBlur] \<and>
   remove (3::nat)
     (run [Add 1, Add 2, Dispatch [1, 2] DomFocus, Dispatch [1, 2] DomBlur] constructor) =
   run [Add 1, Add 2, Dispatch [1, 2] DomFocus, Dispatch [1, 2] DomBlur] constructor"
proof -
  have h: "Add (3::nat) \<notin>
             set [Add 1, Add 2, Dispatch [1, 2] DomFocus, Dispatch [1, 2] DomBlur]"
    by simp
  from remove_never_added [OF h] h show ?thesis by blast
qed

text \<open>
  An element of \<^verbatim>\<open>_elements\<close> without subscriptions stays so: \<^verbatim>\<open>add\<close> is the one method
  that subscribes, and it throws for an element of \<^verbatim>\<open>_elements\<close>.
\<close>

lemma detached_subscribed: "detached e s \<Longrightarrow> subscribed s e k = []"
  by (auto simp: detached_def subscribed_def filter_empty_conv)

lemma remove_detached: "e \<in> set (elements s) \<Longrightarrow> detached e (remove e s)"
  by (auto simp: detached_def remove_eq Let_def priv_blur_eq stopListening_def
                 filter_empty_conv)

lemma step_detached:
  assumes "detached e s"
  shows "detached e (step a s)"
proof (cases a)
  case (Add x)
  then show ?thesis using assms by (auto simp: add_eq detached_def)
next
  case (Remove x)
  then show ?thesis using assms
    by (auto simp: remove_eq Let_def priv_blur_eq stopListening_def detached_def
                   filter_empty_conv)
next
  case (Dispatch path k)
  then show ?thesis using assms by (simp add: detached_def dispatch_frame)
next
  case Timeout
  then show ?thesis using assms
    by (auto simp: runTimeout_def blurTimeout_def detached_def split: list.splits)
qed

lemma silent_subscribed: "silent x s \<Longrightarrow> subscribed s x k = []"
  by (cases k) (simp_all add: silent_def)

text \<open>
  Claim C9, as amended. Let \<open>e\<close> be in \<^verbatim>\<open>_elements\<close>. After \<^verbatim>\<open>remove\<close> of \<open>e\<close> has
  returned, and after anything that happens to the manager later, the subscriptions of
  \<open>e\<close> are gone: a \<^verbatim>\<open>focus\<close> or \<^verbatim>\<open>blur\<close> event on \<open>e\<close> does what the same event does
  on the elements \<open>q\<close> that contain \<open>e\<close>, and no more. So it leaves the whole state,
  and with it \<^verbatim>\<open>isFocused\<close> and the focused element, unchanged when every element that
  contains \<open>e\<close> is silent, as it is when \<open>e\<close> lies in no other element.
\<close>

theorem removed_element_is_silent:
  assumes "e \<in> set (elements s)"
  shows "dispatchEvent (q @ [e]) k (run acts (remove e s)) =
           dispatchEvent q k (run acts (remove e s)) \<and>
         (list_all (\<lambda>x. silent x (run acts (remove e s))) q \<longrightarrow>
            dispatchEvent (q @ [e]) k (run acts (remove e s)) = run acts (remove e s))"
proof -
  let ?s = "run acts (remove e s)"
  have d: "detached e ?s"
  proof (rule run_invariant)
    show "detached e (remove e s)"
      using assms by (rule remove_detached)
  next
    fix a s'
    assume "detached e s'"
    then show "detached e (step a s')" by (rule step_detached)
  qed
  then have "detached e (dispatchEvent q k ?s)"
    by (simp add: detached_def dispatch_frame)
  then have "subscribed (dispatchEvent q k ?s) e k = []"
    by (rule detached_subscribed)
  then have a: "dispatchEvent (q @ [e]) k ?s = dispatchEvent q k ?s"
    by (simp add: dispatch_append dispatch_single)
  have "dispatchEvent q k ?s = ?s" if "list_all (\<lambda>x. silent x ?s) q"
  proof (rule dispatch_none)
    from that show "list_all (\<lambda>x. subscribed ?s x k = []) q"
      by (auto simp: list_all_iff silent_subscribed)
  qed
  with a show ?thesis by simp
qed

theorem removed_element_is_silent_witness:
  "(1::nat) \<in> set (elements (run [Add 1, Add 2, Dispatch [2] DomFocus] constructor)) \<and>
   list_all
     (\<lambda>x. silent x
        (run [Add 1] (remove 1 (run [Add 1, Add 2, Dispatch [2] DomFocus] constructor))))
     [3::nat] \<and>
   dispatchEvent [3, 1::nat] DomFocus
     (run [Add 1] (remove 1 (run [Add 1, Add 2, Dispatch [2] DomFocus] constructor))) =
   run [Add 1] (remove 1 (run [Add 1, Add 2, Dispatch [2] DomFocus] constructor)) \<and>
   dispatchEvent [3, 1::nat] DomBlur
     (run [Add 1] (remove 1 (run [Add 1, Add 2, Dispatch [2] DomFocus] constructor))) =
   run [Add 1] (remove 1 (run [Add 1, Add 2, Dispatch [2] DomFocus] constructor)) \<and>
   focusedElement
     (run [Add 1] (remove (1::nat) (run [Add 1, Add 2, Dispatch [2] DomFocus] constructor))) =
   Some 2"
proof -
  let ?s = "run [Add (1::nat), Add 2, Dispatch [2] DomFocus] constructor"
  have h: "1 \<in> set (elements ?s)"
    by code_simp
  have q: "list_all (\<lambda>x. silent x (run [Add 1] (remove 1 ?s))) [3]"
    by code_simp
  have f: "focusedElement (run [Add 1] (remove 1 ?s)) = Some 2"
    by code_simp
  have a: "dispatchEvent ([3] @ [1]) DomFocus (run [Add 1] (remove 1 ?s)) =
           run [Add 1] (remove 1 ?s)"
    using removed_element_is_silent [OF h, of "[3]" DomFocus "[Add 1]"] q by blast
  have b: "dispatchEvent ([3] @ [1]) DomBlur (run [Add 1] (remove 1 ?s)) =
           run [Add 1] (remove 1 ?s)"
    using removed_element_is_silent [OF h, of "[3]" DomBlur "[Add 1]"] q by blast
  from a b h q f show ?thesis by simp
qed

text \<open>
  Where the claim as stated fails: element \<open>2\<close> lies inside element \<open>1\<close>, both are
  added and \<open>2\<close> is removed. A \<^verbatim>\<open>focus\<close> event on \<open>2\<close> still reaches the capturing
  listener of \<open>1\<close>: \<^verbatim>\<open>isFocused\<close> turns true and the focused element is \<open>1\<close>.
\<close>

theorem removed_element_unchanged_counterexample:
  "(2::nat) \<in> set (elements (run [Add 1, Add 2] constructor)) \<and>
   \<not> isFocused (remove (2::nat) (run [Add 1, Add 2] constructor)) \<and>
   focusedElement (remove (2::nat) (run [Add 1, Add 2] constructor)) = None \<and>
   isFocused (dispatchEvent [1, 2::nat] DomFocus
     (remove 2 (run [Add 1, Add 2] constructor))) \<and>
   focusedElement (dispatchEvent [1, 2::nat] DomFocus
     (remove 2 (run [Add 1, Add 2] constructor))) = Some 1"
  by code_simp

end
